theory Spec2Isabelle
  imports Main "HOL-Library.Word" "HOL-Library.Signed_Division"
begin

unbundle bit_operations_syntax

section \<open>Bytes, C strings and the block layout\<close>

text \<open>
  The decoder (libavcodec/ebustldec.c) and the demuxer (libavformat/ebustldec.c) work on
  \<open>uint8_t\<close> buffers and on \<open>char\<close> strings. Both are lists of 8-bit words here. A C
  string literal is the list of the codes of its characters; the backslash of an
  ASS override tag is written as the byte \<open>0x5C\<close>.
\<close>

type_synonym uint8_t = "8 word"

definition cstr :: "string \<Rightarrow> uint8_t list" where
  "cstr s = map of_char s"

definition backslash :: uint8_t where
  "backslash = 0x5C"

text \<open>What \<open>%s\<close> and \<open>strlen\<close> read from a buffer: the bytes before the first NUL.\<close>

definition c_string :: "uint8_t list \<Rightarrow> uint8_t list" where
  "c_string bytes = takeWhile (\<lambda>b. b \<noteq> 0) bytes"

definition TTI_TEXT_FIELD_OFFSET :: nat where
  "TTI_TEXT_FIELD_OFFSET = 16"

definition TTI_TEXT_FIELD_LENGTH :: nat where
  "TTI_TEXT_FIELD_LENGTH = 112"

definition TTI_BLOCK_SIZE :: nat where
  "TTI_BLOCK_SIZE = 128"

section \<open>ISO 6937 to UTF-8\<close>

text \<open>
  \<open>map_iso6937_to_utf8\<close>: the nested switch on the diacritic and on the base letter.
  \<open>None\<close> is the \<open>NULL\<close> returned when no case matches. The results are the UTF-8
  bytes of the string literals of the source file.
\<close>

definition map_iso6937_to_utf8 :: "uint8_t \<Rightarrow> uint8_t \<Rightarrow> uint8_t list option" where
  "map_iso6937_to_utf8 diacritic base =
    (if diacritic = 0xC1 then
       (if base = of_char CHR ''A'' then Some [0xC3, 0x80]
        else if base = of_char CHR ''E'' then Some [0xC3, 0x88]
        else if base = of_char CHR ''I'' then Some [0xC3, 0x8C]
        else if base = of_char CHR ''O'' then Some [0xC3, 0x92]
        else if base = of_char CHR ''U'' then Some [0xC3, 0x99]
        else if base = of_char CHR ''a'' then Some [0xC3, 0xA0]
        else if base = of_char CHR ''e'' then Some [0xC3, 0xA8]
        else if base = of_char CHR ''i'' then Some [0xC3, 0xAC]
        else if base = of_char CHR ''o'' then Some [0xC3, 0xB2]
        else if base = of_char CHR ''u'' then Some [0xC3, 0xB9]
        else None)
     else if diacritic = 0xC2 then
       (if base = of_char CHR ''A'' then Some [0xC3, 0x81]
        else if base = of_char CHR ''E'' then Some [0xC3, 0x89]
        else if base = of_char CHR ''I'' then Some [0xC3, 0x8D]
        else if base = of_char CHR ''O'' then Some [0xC3, 0x93]
        else if base = of_char CHR ''U'' then Some [0xC3, 0x9A]
        else if base = of_char CHR ''a'' then Some [0xC3, 0xA1]
        else if base = of_char CHR ''e'' then Some [0xC3, 0xA9]
        else if base = of_char CHR ''i'' then Some [0xC3, 0xAD]
        else if base = of_char CHR ''o'' then Some [0xC3, 0xB3]
        else if base = of_char CHR ''u'' then Some [0xC3, 0xBA]
        else None)
     else if diacritic = 0xC3 then
       (if base = of_char CHR ''A'' then Some [0xC3, 0x82]
        else if base = of_char CHR ''E'' then Some [0xC3, 0x8A]
        else if base = of_char CHR ''I'' then Some [0xC3, 0x8E]
        else if base = of_char CHR ''O'' then Some [0xC3, 0x94]
        else if base = of_char CHR ''U'' then Some [0xC3, 0x9B]
        else if base = of_char CHR ''a'' then Some [0xC3, 0xA2]
        else if base = of_char CHR ''e'' then Some [0xC3, 0xAA]
        else if base = of_char CHR ''i'' then Some [0xC3, 0xAE]
        else if base = of_char CHR ''o'' then Some [0xC3, 0xB4]
        else if base = of_char CHR ''u'' then Some [0xC3, 0xBB]
        else None)
     else if diacritic = 0xC8 then
       (if base = of_char CHR ''A'' then Some [0xC3, 0x84]
        else if base = of_char CHR ''E'' then Some [0xC3, 0x8B]
        else if base = of_char CHR ''I'' then Some [0xC3, 0x8F]
        else if base = of_char CHR ''O'' then Some [0xC3, 0x96]
        else if base = of_char CHR ''U'' then Some [0xC3, 0x9C]
        else if base = of_char CHR ''a'' then Some [0xC3, 0xA4]
        else if base = of_char CHR ''e'' then Some [0xC3, 0xAB]
        else if base = of_char CHR ''i'' then Some [0xC3, 0xAF]
        else if base = of_char CHR ''o'' then Some [0xC3, 0xB6]
        else if base = of_char CHR ''u'' then Some [0xC3, 0xBC]
        else None)
     else None)"

text \<open>
  \<open>convert_iso6937_to_utf8\<close>. The output buffer is \<open>malloc (length * 4)\<close>; the model
  records every store into it as a pair of the index written and the byte, in the
  order of the stores. \<open>memcpy\<close> of a table entry at \<open>&output[j]\<close> stores its bytes at
  \<open>j\<close>, \<open>j + 1\<close>, ...
\<close>

type_synonym store = "nat \<times> uint8_t"

definition memcpy :: "nat \<Rightarrow> uint8_t list \<Rightarrow> store list" where
  "memcpy j src = zip [j ..< j + length src] src"

text \<open>
  The \<open>for\<close> loop, from the state \<open>(i, j)\<close> with the stores \<open>w\<close> made so far. It
  returns the final \<open>j\<close> and the stores. The lookahead \<open>input[i + 1]\<close> is read only
  under \<open>i + 1 < length\<close>; a pair with a table entry advances \<open>i\<close> by two (the
  \<open>i++\<close> before \<open>continue\<close> and the loop's own), everything else stores
  \<open>input[i]\<close> itself.
\<close>

function convert_loop :: "uint8_t list \<Rightarrow> nat \<Rightarrow> nat \<Rightarrow> store list \<Rightarrow> nat \<times> store list" where
  "convert_loop input i j w =
    (if i < length input then
       (let diacritic = input ! i in
        if 0xC1 \<le> diacritic \<and> diacritic \<le> 0xCF \<and> i + 1 < length input then
          (case map_iso6937_to_utf8 diacritic (input ! (i + 1)) of
             Some utf8_char \<Rightarrow>
               convert_loop input (i + 2) (j + length utf8_char) (w @ memcpy j utf8_char)
           | None \<Rightarrow> convert_loop input (i + 1) (j + 1) (w @ [(j, input ! i)]))
        else convert_loop input (i + 1) (j + 1) (w @ [(j, input ! i)]))
     else (j, w))"
  by pat_completeness auto
termination
  by (relation "measure (\<lambda>(input, i, j, w). length input - i)") auto

declare convert_loop.simps [simp del]

text \<open>All stores of one call: those of the loop, then \<open>output[j] = '\0'\<close>.\<close>

definition convert_stores :: "uint8_t list \<Rightarrow> store list" where
  "convert_stores input =
    (case convert_loop input 0 0 [] of (j, w) \<Rightarrow> w @ [(j, 0)])"

text \<open>The size of the buffer the stores go to: \<open>out_len = length * 4\<close>.\<close>

definition out_len :: "uint8_t list \<Rightarrow> nat" where
  "out_len input = length input * 4"

text \<open>
  The bytes the loop has put at \<open>output[0], ..., output[j - 1]\<close>, and the function
  itself: \<open>NULL\<close> when \<open>malloc\<close> fails (\<open>output_ok\<close> false), else the buffer, which
  its callers read as a C string.
\<close>

definition transcoded :: "uint8_t list \<Rightarrow> uint8_t list" where
  "transcoded input = map snd (snd (convert_loop input 0 0 []))"

definition convert_iso6937_to_utf8 :: "bool \<Rightarrow> uint8_t list \<Rightarrow> uint8_t list option" where
  "convert_iso6937_to_utf8 output_ok input =
    (if \<not> output_ok then None
     else Some (c_string (map snd (convert_stores input))))"

text \<open>
  The bytes the loop stores from position \<open>i\<close> on, in order, without the indices:
  the same case analysis as \<open>convert_loop\<close>, used to reason about its result.
\<close>

function loop_bytes :: "uint8_t list \<Rightarrow> nat \<Rightarrow> uint8_t list" where
  "loop_bytes input i =
    (if i < length input then
       (let diacritic = input ! i in
        if 0xC1 \<le> diacritic \<and> diacritic \<le> 0xCF \<and> i + 1 < length input then
          (case map_iso6937_to_utf8 diacritic (input ! (i + 1)) of
             Some utf8_char \<Rightarrow> utf8_char @ loop_bytes input (i + 2)
           | None \<Rightarrow> input ! i # loop_bytes input (i + 1))
        else input ! i # loop_bytes input (i + 1))
     else [])"
  by pat_completeness auto
termination
  by (relation "measure (\<lambda>(input, i). length input - i)") auto

declare loop_bytes.simps [simp del]

section \<open>Colour control codes\<close>

text \<open>
  \<open>extract_colors_from_tti\<close>: the scan of \<open>buf[16 .. 127]\<close> for the colours of line
  \<open>line_count\<close>. The state of the loop is \<open>(text_color, background_color,
  current_line)\<close>; the result is the pair the two out-pointers hold when the loop
  ends, by exhaustion or by the \<open>break\<close> behind a line break.
  \<open>byte >= 0x00\<close> is true of every \<open>uint8_t\<close>.
\<close>

function extract_colors_loop ::
  "uint8_t list \<Rightarrow> nat \<Rightarrow> nat \<Rightarrow> uint8_t \<times> uint8_t \<times> nat \<Rightarrow> uint8_t \<times> uint8_t" where
  "extract_colors_loop buf line_count i (text_color, background_color, current_line) =
    (if i < TTI_TEXT_FIELD_OFFSET + TTI_TEXT_FIELD_LENGTH then
       (let byte = buf ! i;
            current_line' = (if byte = 0x8A then current_line + 1 else current_line)
        in if byte = 0x8A \<and> current_line' > line_count then (text_color, background_color)
           else
             (let text_color' = (if byte = 0x8A then 0x00 else text_color);
                  background_color' = (if byte = 0x8A then 0x07 else background_color)
              in if current_line' = line_count then
                   (if byte \<le> 0x07 then
                      extract_colors_loop buf line_count (i + 1)
                        (byte, background_color', current_line')
                    else if 0x10 \<le> byte \<and> byte \<le> 0x17 then
                      extract_colors_loop buf line_count (i + 1)
                        (text_color', byte AND 0x07, current_line')
                    else
                      extract_colors_loop buf line_count (i + 1)
                        (text_color', background_color', current_line'))
                 else
                   extract_colors_loop buf line_count (i + 1)
                     (text_color', background_color', current_line')))
     else (text_color, background_color))"
  by pat_completeness auto
termination
  by (relation "measure (\<lambda>(buf, line_count, i, s). TTI_TEXT_FIELD_OFFSET + TTI_TEXT_FIELD_LENGTH - i)")
    auto

declare extract_colors_loop.simps [simp del]

definition extract_colors_from_tti :: "uint8_t list \<Rightarrow> nat \<Rightarrow> uint8_t \<times> uint8_t" where
  "extract_colors_from_tti buf line_count =
    extract_colors_loop buf line_count TTI_TEXT_FIELD_OFFSET (0x00, 0x07, 0)"

section \<open>Markup assembly\<close>

text \<open>
  The ASS override tags \<open>{\c&H......&}\<close> and \<open>{\3c&H......&}\<close> of the source's string
  literals, by their six hex digits.
\<close>

definition text_tag :: "string \<Rightarrow> uint8_t list" where
  "text_tag hex = cstr ''{'' @ backslash # cstr (''c&H'' @ hex @ ''&}'')"

definition border_tag :: "string \<Rightarrow> uint8_t list" where
  "border_tag hex = cstr ''{'' @ backslash # cstr (''3c&H'' @ hex @ ''&}'')"

text \<open>
  The three \<open>if\<close> chains that choose the tags. None has a final \<open>else\<close>, so a colour
  outside 0..7 leaves the pointer as it was (\<open>old\<close>; \<open>None\<close> is \<open>NULL\<close>).
  \<open>first_text_color_str\<close> is the chain before the loop (lines 247 to 264),
  \<open>next_text_color_str\<close> the chain behind a line break (lines 313 to 329), and
  \<open>border_color_str\<close> the chain for the border, which the source has twice with the
  same entries (lines 266 to 283 and 331 to 347).
\<close>

definition first_text_color_str :: "uint8_t \<Rightarrow> uint8_t list option \<Rightarrow> uint8_t list option" where
  "first_text_color_str text_color old =
    (if text_color = 0 then Some (text_tag ''FFFFFF'')
     else if text_color = 1 then Some (text_tag ''0000FF'')
     else if text_color = 2 then Some (text_tag ''00FF00'')
     else if text_color = 3 then Some (text_tag ''00FFFF'')
     else if text_color = 4 then Some (text_tag ''FF0000'')
     else if text_color = 5 then Some (text_tag ''FF00FF'')
     else if text_color = 6 then Some (text_tag ''FFFF00'')
     else if text_color = 7 then Some (text_tag ''000000'')
     else old)"

definition next_text_color_str :: "uint8_t \<Rightarrow> uint8_t list option \<Rightarrow> uint8_t list option" where
  "next_text_color_str text_color old =
    (if text_color = 0 then Some (text_tag ''FFFFFF'')
     else if text_color = 1 then Some (text_tag ''FF0000'')
     else if text_color = 2 then Some (text_tag ''00FF00'')
     else if text_color = 3 then Some (text_tag ''00FFFF'')
     else if text_color = 4 then Some (text_tag ''0000FF'')
     else if text_color = 5 then Some (text_tag ''FF00FF'')
     else if text_color = 6 then Some (text_tag ''FFFF00'')
     else if text_color = 7 then Some (text_tag ''000000'')
     else old)"

definition border_color_str :: "uint8_t \<Rightarrow> uint8_t list option \<Rightarrow> uint8_t list option" where
  "border_color_str background_color old =
    (if background_color = 0 then Some (border_tag ''FFFFFF'')
     else if background_color = 1 then Some (border_tag ''00FFFF'')
     else if background_color = 2 then Some (border_tag ''00FF00'')
     else if background_color = 3 then Some (border_tag ''FF0000'')
     else if background_color = 4 then Some (border_tag ''0000FF'')
     else if background_color = 5 then Some (border_tag ''FF00FF'')
     else if background_color = 6 then Some (border_tag ''FFFF00'')
     else if background_color = 7 then Some (border_tag ''000000'')
     else old)"

text \<open>\<open>%s\<close> in \<open>av_asprintf\<close>: the string, or \<open>(null)\<close> for a \<open>NULL\<close> pointer.\<close>

definition fmt_s :: "uint8_t list option \<Rightarrow> uint8_t list" where
  "fmt_s p = (case p of None \<Rightarrow> cstr ''(null)'' | Some s \<Rightarrow> c_string s)"

text \<open>
  The variables of \<open>extract_text_and_colors_from_tti_block\<close> that change in its loop.
  \<open>line\<close> holds the bytes \<open>line[0 .. text_len - 1]\<close>, so \<open>text_len\<close> is its length and
  \<open>text_len = 0\<close> empties it. \<open>av_asprintf\<close> and the \<open>malloc\<close> of \<open>line\<close>, which the
  source does not check, are taken to succeed.
\<close>

record tti_vars =
  ass_string :: "uint8_t list"
  line :: "uint8_t list"
  line_count :: nat
  text_color_str :: "uint8_t list option"
  border_color :: "uint8_t list option"

text \<open>
  The conversion of \<open>line\<close> and its concatenation to \<open>ass_string\<close>, which the source
  does at every line break and once more behind the loop: \<open>\N\<close> and the line when
  it is not the first and not empty, the line alone when it is not empty, nothing
  otherwise, and nothing when the conversion returns \<open>NULL\<close>.
\<close>

definition append_line :: "bool \<Rightarrow> tti_vars \<Rightarrow> uint8_t list" where
  "append_line output_ok v =
    (case convert_iso6937_to_utf8 output_ok (line v) of
       Some utf8_line \<Rightarrow>
         (if line_count v > 0 \<and> length (line v) > 0 then
            ass_string v @ backslash # cstr ''N'' @ utf8_line
          else if length (line v) > 0 then ass_string v @ utf8_line
          else ass_string v)
     | None \<Rightarrow> ass_string v)"

text \<open>
  The loop over \<open>tti_block[i]\<close> from \<open>text_field_offset\<close> to \<open>tti_block_size - 1\<close>.
  \<open>alloc k\<close> tells whether the output buffer of the conversion of line \<open>k\<close> could be
  allocated.
\<close>

function text_loop :: "(nat \<Rightarrow> bool) \<Rightarrow> uint8_t list \<Rightarrow> nat \<Rightarrow> nat \<Rightarrow> tti_vars \<Rightarrow> tti_vars" where
  "text_loop alloc tti_block tti_block_size i v =
    (if i < tti_block_size then
       (let character = tti_block ! i in
        if character = 0x8A then
          (let ass1 = append_line (alloc (line_count v)) v;
               line_count' = line_count v + 1;
               (text_color, background_color) = extract_colors_from_tti tti_block line_count';
               text_color_str' = next_text_color_str text_color (text_color_str v);
               border_color' = border_color_str background_color (border_color v)
           in text_loop alloc tti_block tti_block_size (i + 1)
                \<lparr>ass_string = ass1 @ fmt_s text_color_str' @ fmt_s border_color',
                 line = [], line_count = line_count',
                 text_color_str = text_color_str', border_color = border_color'\<rparr>)
        else if character = 0x8F then v
        else if character \<ge> 32 then
          text_loop alloc tti_block tti_block_size (i + 1) (v\<lparr>line := line v @ [character]\<rparr>)
        else text_loop alloc tti_block tti_block_size (i + 1) v)
     else v)"
  by pat_completeness auto
termination
  by (relation "measure (\<lambda>(alloc, tti_block, tti_block_size, i, v). tti_block_size - i)") auto

declare text_loop.simps [simp del]

definition text_field_offset :: nat where
  "text_field_offset = 13"

definition extract_text_and_colors_from_tti_block ::
  "(nat \<Rightarrow> bool) \<Rightarrow> uint8_t list \<Rightarrow> nat \<Rightarrow> uint8_t list" where
  "extract_text_and_colors_from_tti_block alloc tti_block tti_block_size =
    (let (text_color, background_color) = extract_colors_from_tti tti_block 0;
         text_color_str0 = first_text_color_str text_color None;
         border_color0 = border_color_str background_color None;
         v = text_loop alloc tti_block tti_block_size text_field_offset
               \<lparr>ass_string = fmt_s text_color_str0 @ fmt_s border_color0,
                line = [], line_count = 0,
                text_color_str = text_color_str0, border_color = border_color0\<rparr>
     in append_line (alloc (line_count v)) v)"

section \<open>Decoding a packet\<close>

text \<open>
  The alignment of \<open>ebustl_decode_frame\<close> (lines 403 to 425): \<open>int\<close> variables with a
  default and an \<open>if\<close> chain each, and the number printed into \<open>{\an%d}\<close>.
\<close>

definition horizontal_alignment :: "uint8_t \<Rightarrow> int" where
  "horizontal_alignment justification_code =
    (if justification_code = 0x01 then 1
     else if justification_code = 0x02 then 2
     else if justification_code = 0x03 then 3
     else 2)"

definition vertical_alignment :: "uint8_t \<Rightarrow> int" where
  "vertical_alignment vertical_position =
    (if vertical_position < 8 then 3
     else if vertical_position \<ge> 8 \<and> vertical_position \<le> 16 then 2
     else 1)"

definition alignment_code :: "uint8_t \<Rightarrow> uint8_t \<Rightarrow> int" where
  "alignment_code vertical_position justification_code =
    (vertical_alignment vertical_position - 1) * 3 + horizontal_alignment justification_code"

text \<open>\<open>%d\<close>: the decimal digits of an \<open>int\<close>, with a minus sign when negative.\<close>

fun digits :: "nat \<Rightarrow> uint8_t list" where
  "digits n =
    (if n < 10 then [of_char CHR ''0'' + of_nat n]
     else digits (n div 10) @ [of_char CHR ''0'' + of_nat (n mod 10)])"

declare digits.simps [simp del]

definition fmt_d :: "int \<Rightarrow> uint8_t list" where
  "fmt_d n = (if n < 0 then cstr ''-'' @ digits (nat (- n)) else digits (nat n))"

definition alignment_str :: "uint8_t \<Rightarrow> uint8_t \<Rightarrow> uint8_t list" where
  "alignment_str vertical_position justification_code =
    cstr ''{'' @ backslash # cstr ''an''
      @ fmt_d (alignment_code vertical_position justification_code) @ cstr ''}''"

text \<open>
  Modelled from the spec: \<open>ff_ass_add_rect\<close> is declared in libavcodec/ass.h and its
  body is not among the sources. The spec's cue sink accepts the markup text and the
  sequence index and does not interpret the markup; the model appends the two to the
  list of cues of the subtitle.
\<close>

record cue =
  markup_text :: "uint8_t list"
  sequence_index :: "32 word"

definition ff_ass_add_rect :: "cue list \<Rightarrow> uint8_t list \<Rightarrow> 32 word \<Rightarrow> cue list" where
  "ff_ass_add_rect sub dialog ro = sub @ [\<lparr>markup_text = dialog, sequence_index = ro\<rparr>]"

text \<open>
  What \<open>ebustl_decode_frame\<close> changes: the rectangles of \<open>sub\<close>, \<open>s->readorder\<close> and
  \<open>*got_sub_ptr\<close>. \<open>readorder\<close> is a C \<open>int\<close>, a 32-bit word read with \<open>sint\<close>; its
  \<open>++\<close> is the word's addition, which wraps around at \<open>INT_MAX\<close> (the overflow C
  leaves undefined). The display time, rescaled from the packet's duration by a
  library function, is not part of the model.
\<close>

record decode_vars =
  rects :: "cue list"
  readorder :: "32 word"
  got_sub :: int

text \<open>
  The \<open>while\<close> loop over the packet: \<open>buf\<close> is the data from the current block on, so
  \<open>buf_size\<close> is its length and \<open>buf += TTI_BLOCK_SIZE\<close> drops a block. \<open>n\<close> counts the
  blocks done; \<open>alloc n k\<close> tells whether the conversion buffer of line \<open>k\<close> of block
  \<open>n\<close> could be allocated. The assembled text is a result of \<open>av_asprintf\<close>, taken to
  succeed, so the test \<open>!ass_text\<close> is false and \<open>ass_text[0] == '\0'\<close> says that the
  string is empty.
\<close>

function decode_loop :: "(nat \<Rightarrow> nat \<Rightarrow> bool) \<Rightarrow> nat \<Rightarrow> uint8_t list \<Rightarrow> decode_vars \<Rightarrow> decode_vars" where
  "decode_loop alloc n buf d =
    (if length buf \<ge> TTI_BLOCK_SIZE then
       (let ass_text = extract_text_and_colors_from_tti_block (alloc n) buf TTI_BLOCK_SIZE in
        if ass_text = [] then decode_loop alloc (n + 1) (drop TTI_BLOCK_SIZE buf) d
        else
          (let justification_code = buf ! 14;
               vertical_position = buf ! 13;
               final_ass_text =
                 alignment_str vertical_position justification_code @ ass_text
                   @ cstr ''{'' @ backslash # cstr ''bord3}''
           in decode_loop alloc (n + 1) (drop TTI_BLOCK_SIZE buf)
                \<lparr>rects = ff_ass_add_rect (rects d) final_ass_text (readorder d),
                 readorder = readorder d + 1,
                 got_sub = 1\<rparr>))
     else d)"
  by pat_completeness auto
termination
  by (relation "measure (\<lambda>(alloc, n, buf, d). length buf)") (auto simp: TTI_BLOCK_SIZE_def)

declare decode_loop.simps [simp del]

text \<open>
  \<open>ebustl_decode_frame\<close> on the packet data \<open>buf\<close>, with the read order the session
  has reached and the rectangles \<open>sub\<close> already holds.
\<close>

definition ebustl_decode_frame ::
  "(nat \<Rightarrow> nat \<Rightarrow> bool) \<Rightarrow> cue list \<Rightarrow> 32 word \<Rightarrow> uint8_t list \<Rightarrow> decode_vars" where
  "ebustl_decode_frame alloc sub ro buf =
    decode_loop alloc 0 buf \<lparr>rects = sub, readorder = ro, got_sub = 0\<rparr>"

section \<open>The demuxer\<close>

text \<open>
  \<open>ebustl_probe\<close>. \<open>buf\<close> is the memory at \<open>p->buf\<close>, whatever lies there, as a
  function of the index, and \<open>buf_size\<close> the \<open>int\<close> field. The result is the list of
  the indices read, in order, and the score; \<open>&&\<close> reads its right operand only
  when the left one holds. \<open>score_max\<close> stands for \<open>AVPROBE_SCORE_MAX\<close>, a constant of
  libavformat/avformat.h.
\<close>

record AVProbeData =
  buf_size :: int
  buf :: "nat \<Rightarrow> uint8_t"

definition ebustl_probe :: "int \<Rightarrow> AVProbeData \<Rightarrow> nat list \<times> int" where
  "ebustl_probe score_max p =
    (if buf_size p < 5 then ([], 0)
     else if buf p 3 \<noteq> of_char CHR ''S'' then ([3], 0)
     else if buf p 4 \<noteq> of_char CHR ''T'' then ([3, 4], 0)
     else if buf p 5 \<noteq> of_char CHR ''L'' then ([3, 4, 5], 0)
     else ([3, 4, 5], score_max))"

text \<open>
  \<open>ebustl_timestamp_to_pts\<close>. The four bytes become \<open>int\<close> variables (32 bits); the
  operands of \<open>3600LL\<close>, \<open>60LL\<close> and \<open>1000LL\<close> are converted to \<open>long long\<close> (64 bits)
  with their sign, \<open>frames * (1000 / 25)\<close> is computed in \<open>int\<close> (the quotient of the
  two constants by C's truncating division) and then converted,
  and the result is an \<open>int64_t\<close>, read with \<open>sint\<close>.
\<close>

definition ebustl_timestamp_to_pts :: "uint8_t list \<Rightarrow> 64 word" where
  "ebustl_timestamp_to_pts timecode =
    (let hours = (ucast (timecode ! 0) :: 32 word);
         minutes = (ucast (timecode ! 1) :: 32 word);
         seconds = (ucast (timecode ! 2) :: 32 word);
         frames = (ucast (timecode ! 3) :: 32 word)
     in (scast (hours - 10) * 3600 + scast minutes * 60 + scast seconds) * 1000
          + scast (frames * word_of_int (1000 sdiv 25)))"

section \<open>The alignment as the specification words it\<close>

text \<open>
  The ranks of the specification, on the numeric value of the two bytes: Bottom is 3
  below 8, Top is 1 above 16, Middle is 2 in between; Left is 1 for justification 1,
  Right is 3 for justification 3, Center is 2 for every other value.
\<close>

definition spec_vertical_rank :: "nat \<Rightarrow> int" where
  "spec_vertical_rank v = (if v < 8 then 3 else if v > 16 then 1 else 2)"

definition spec_horizontal_rank :: "nat \<Rightarrow> int" where
  "spec_horizontal_rank j = (if j = 1 then 1 else if j = 3 then 3 else 2)"

section \<open>The precomposed characters as the specification names them\<close>

text \<open>
  The specification maps a pair of a diacritic (grave \<open>0xC1\<close>, acute \<open>0xC2\<close>, circumflex
  \<open>0xC3\<close>, diaeresis \<open>0xC8\<close>) and a vowel A, E, I, O, U of either case to the single
  precomposed character. \<open>precomposed_code_point\<close> is the Unicode code point of that
  character (U+00C0 for A grave up to U+00FC for u diaeresis) and
  \<open>utf8_two_bytes\<close> the UTF-8 encoding of a code point from U+0080 to U+07FF.
\<close>

definition precomposed_table :: "((uint8_t \<times> char) \<times> nat) list" where
  "precomposed_table =
    [((0xC1, CHR ''A''), 0xC0), ((0xC1, CHR ''E''), 0xC8), ((0xC1, CHR ''I''), 0xCC),
     ((0xC1, CHR ''O''), 0xD2), ((0xC1, CHR ''U''), 0xD9),
     ((0xC1, CHR ''a''), 0xE0), ((0xC1, CHR ''e''), 0xE8), ((0xC1, CHR ''i''), 0xEC),
     ((0xC1, CHR ''o''), 0xF2), ((0xC1, CHR ''u''), 0xF9),
     ((0xC2, CHR ''A''), 0xC1), ((0xC2, CHR ''E''), 0xC9), ((0xC2, CHR ''I''), 0xCD),
     ((0xC2, CHR ''O''), 0xD3), ((0xC2, CHR ''U''), 0xDA),
     ((0xC2, CHR ''a''), 0xE1), ((0xC2, CHR ''e''), 0xE9), ((0xC2, CHR ''i''), 0xED),
     ((0xC2, CHR ''o''), 0xF3), ((0xC2, CHR ''u''), 0xFA),
     ((0xC3, CHR ''A''), 0xC2), ((0xC3, CHR ''E''), 0xCA), ((0xC3, CHR ''I''), 0xCE),
     ((0xC3, CHR ''O''), 0xD4), ((0xC3, CHR ''U''), 0xDB),
     ((0xC3, CHR ''a''), 0xE2), ((0xC3, CHR ''e''), 0xEA), ((0xC3, CHR ''i''), 0xEE),
     ((0xC3, CHR ''o''), 0xF4), ((0xC3, CHR ''u''), 0xFB),
     ((0xC8, CHR ''A''), 0xC4), ((0xC8, CHR ''E''), 0xCB), ((0xC8, CHR ''I''), 0xCF),
     ((0xC8, CHR ''O''), 0xD6), ((0xC8, CHR ''U''), 0xDC),
     ((0xC8, CHR ''a''), 0xE4), ((0xC8, CHR ''e''), 0xEB), ((0xC8, CHR ''i''), 0xEF),
     ((0xC8, CHR ''o''), 0xF6), ((0xC8, CHR ''u''), 0xFC)]"

definition precomposed_code_point :: "uint8_t \<Rightarrow> uint8_t \<Rightarrow> nat option" where
  "precomposed_code_point diacritic base =
    map_of (map (\<lambda>((d, c), cp). ((d, of_char c :: uint8_t), cp)) precomposed_table)
      (diacritic, base)"

definition utf8_two_bytes :: "nat \<Rightarrow> uint8_t list" where
  "utf8_two_bytes cp = [0xC0 + of_nat (cp div 64), 0x80 + of_nat (cp mod 64)]"

section \<open>Blocks for the examples\<close>

text \<open>
  A 128-byte TTI block with zeros in bytes 0 to 12 (group, numbers and timecodes),
  the given vertical position, justification code and comment flag in bytes 13 to 15,
  and the given text field from byte 16 on, filled up with the format's filler
  \<open>0x8F\<close>.
\<close>

definition example_block :: "uint8_t \<Rightarrow> uint8_t \<Rightarrow> uint8_t \<Rightarrow> uint8_t list \<Rightarrow> uint8_t list" where
  "example_block vp jc cf tf =
    replicate 13 0 @ [vp, jc, cf] @ tf @ replicate (TTI_TEXT_FIELD_LENGTH - length tf) 0x8F"

section \<open>Timecodes\<close>

lemma byte_range: "0 \<le> uint (b :: 8 word) \<and> uint b < 256"
  using uint_lt2p [of b] by simp

lemma stb31: "- 2147483648 \<le> k \<Longrightarrow> k < 2147483648 \<Longrightarrow> signed_take_bit 31 k = (k::int)"
  by (rule signed_take_bit_int_eq_self) simp_all

lemma stb63:
  "- 9223372036854775808 \<le> k \<Longrightarrow> k < 9223372036854775808 \<Longrightarrow> signed_take_bit 63 k = (k::int)"
  by (rule signed_take_bit_int_eq_self) simp_all

lemma stb31_byte:
  fixes k :: int
  assumes "0 \<le> k \<and> k < 256"
  shows "signed_take_bit 31 k = k"
    and "signed_take_bit 31 (k - 10) = k - 10"
    and "signed_take_bit 31 (k * 40) = k * 40"
  using assms by (auto intro!: stb31)

lemma sint_byte: "sint (ucast (b :: 8 word) :: 32 word) = uint b"
  by (simp add: signed_ucast_eq stb31_byte(1) [OF byte_range])

lemma hours_minus: "sint ((ucast (h :: 8 word) :: 32 word) - 10) = uint h - 10"
  by (simp add: sint_word_diff sint_byte stb31_byte(2) [OF byte_range])

lemma frames_times:
  "sint ((ucast (f :: 8 word) :: 32 word) * word_of_int (1000 sdiv 25)) = uint f * 40"
proof -
  have c: "(1000 :: int) sdiv 25 = 40"
    by (simp add: signed_divide_int_def)
  show ?thesis
    by (simp only: c sint_word_mult sint_byte) (simp add: stb31_byte(3) [OF byte_range])
qed

lemma sint_scast_32_64: "sint (scast (x :: 32 word) :: 64 word) = sint x"
  by (rule sint_up_scast) (simp add: is_up)

text \<open>
  C5. \<open>ebustl_timestamp_to_pts\<close> is defined on every four bytes, and its value, read as
  a signed 64-bit integer, is \<open>((h - 10) * 3600 + m * 60 + s) * 1000 + f * 40\<close> for the
  unsigned values of the bytes: no field is validated and none of the machine
  operations wraps around, also for minutes and seconds above 59.
\<close>

theorem timestamp_to_pts_value:
  "sint (ebustl_timestamp_to_pts [h, m, s, f]) =
     ((uint h - 10) * 3600 + uint m * 60 + uint s) * 1000 + uint f * 40"
proof -
  define H M S F where HMSF: "H = uint h" "M = uint m" "S = uint s" "F = uint f"
  have r: "0 \<le> H" "H < 256" "0 \<le> M" "M < 256" "0 \<le> S" "S < 256" "0 \<le> F" "F < 256"
    using byte_range [of h] byte_range [of m] byte_range [of s] byte_range [of f]
    by (simp_all add: HMSF)
  let ?h = "scast ((ucast h :: 32 word) - 10) :: 64 word"
  let ?m = "scast (ucast m :: 32 word) :: 64 word"
  let ?s = "scast (ucast s :: 32 word) :: 64 word"
  let ?f = "scast ((ucast f :: 32 word) * word_of_int (1000 sdiv 25)) :: 64 word"
  have h: "sint ?h = H - 10" by (simp add: sint_scast_32_64 hours_minus HMSF)
  have m: "sint ?m = M" by (simp add: sint_scast_32_64 sint_byte HMSF)
  have s: "sint ?s = S" by (simp add: sint_scast_32_64 sint_byte HMSF)
  have f: "sint ?f = F * 40" by (simp only: sint_scast_32_64 frames_times HMSF)
  have h3600: "sint (?h * 3600) = (H - 10) * 3600"
  proof -
    have "signed_take_bit 63 ((H - 10) * 3600) = (H - 10) * 3600"
      using r by (intro stb63) (simp_all add: algebra_simps)
    then show ?thesis by (simp add: sint_word_mult h)
  qed
  have m60: "sint (?m * 60) = M * 60"
  proof -
    have "signed_take_bit 63 (M * 60) = M * 60"
      using r by (intro stb63) (simp_all add: algebra_simps)
    then show ?thesis by (simp add: sint_word_mult m)
  qed
  have sum1: "sint (?h * 3600 + ?m * 60) = (H - 10) * 3600 + M * 60"
  proof -
    have "signed_take_bit 63 ((H - 10) * 3600 + M * 60) = (H - 10) * 3600 + M * 60"
      using r by (intro stb63) (simp_all add: algebra_simps)
    then show ?thesis by (simp only: sint_word_add h3600 m60) simp
  qed
  have sum2: "sint (?h * 3600 + ?m * 60 + ?s) = (H - 10) * 3600 + M * 60 + S"
  proof -
    have "signed_take_bit 63 ((H - 10) * 3600 + M * 60 + S) = (H - 10) * 3600 + M * 60 + S"
      using r by (intro stb63) (simp_all add: algebra_simps)
    then show ?thesis by (simp only: sint_word_add [of "?h * 3600 + ?m * 60" ?s] sum1 s) simp
  qed
  have prod: "sint ((?h * 3600 + ?m * 60 + ?s) * 1000) = ((H - 10) * 3600 + M * 60 + S) * 1000"
  proof -
    have "signed_take_bit 63 (((H - 10) * 3600 + M * 60 + S) * 1000)
        = ((H - 10) * 3600 + M * 60 + S) * 1000"
      using r by (intro stb63) (simp_all add: algebra_simps)
    then show ?thesis
      by (simp only: sint_word_mult [of "?h * 3600 + ?m * 60 + ?s" 1000] sum2) simp
  qed
  have total: "sint ((?h * 3600 + ?m * 60 + ?s) * 1000 + ?f)
      = ((H - 10) * 3600 + M * 60 + S) * 1000 + F * 40"
  proof -
    have "signed_take_bit 63 (((H - 10) * 3600 + M * 60 + S) * 1000 + F * 40)
        = ((H - 10) * 3600 + M * 60 + S) * 1000 + F * 40"
      using r by (intro stb63) (simp_all add: algebra_simps)
    then show ?thesis
      by (simp only: sint_word_add [of "(?h * 3600 + ?m * 60 + ?s) * 1000" ?f] prod f) simp
  qed
  show ?thesis
    unfolding ebustl_timestamp_to_pts_def Let_def
    using total by (simp add: HMSF)
qed

section \<open>The transcoder\<close>

text \<open>The stores of \<open>memcpy\<close>, and the loop in terms of the bytes it stores.\<close>

lemma memcpy_Nil: "memcpy j [] = []"
  by (simp add: memcpy_def)

lemma memcpy_Cons: "memcpy j (x # xs) = (j, x) # memcpy (Suc j) xs"
  by (simp add: memcpy_def upt_rec [of j] del: upt.simps)

lemma memcpy_append: "memcpy j (xs @ ys) = memcpy j xs @ memcpy (j + length xs) ys"
  by (induction xs arbitrary: j) (simp_all add: memcpy_Nil memcpy_Cons)

lemma map_snd_memcpy: "map snd (memcpy j xs) = xs"
  by (simp add: memcpy_def)

lemma map_fst_memcpy: "map fst (memcpy j xs) = [j ..< j + length xs]"
  by (simp add: memcpy_def)

lemma convert_loop_bytes:
  "convert_loop input i j w = (j + length (loop_bytes input i), w @ memcpy j (loop_bytes input i))"
proof (induction input i j w rule: convert_loop.induct)
  case (1 input i j w)
  show ?case
  proof (cases "i < length input")
    case False
    then show ?thesis
      by (simp add: convert_loop.simps [of input i] loop_bytes.simps [of input i] memcpy_Nil)
  next
    case True
    show ?thesis
    proof (cases "0xC1 \<le> input ! i \<and> input ! i \<le> 0xCF \<and> i + 1 < length input")
      case False
      with True "1.IH"(3) [OF True refl] show ?thesis
        by (auto simp add: convert_loop.simps [of input i] loop_bytes.simps [of input i]
            memcpy_Cons Let_def)
    next
      case pair: True
      show ?thesis
      proof (cases "map_iso6937_to_utf8 (input ! i) (input ! (i + 1))")
        case None
        with True pair "1.IH"(1) [OF True refl pair None] show ?thesis
          by (simp add: convert_loop.simps [of input i] loop_bytes.simps [of input i]
              memcpy_Cons Let_def)
      next
        case (Some u)
        with True pair "1.IH"(2) [OF True refl pair Some] show ?thesis
          by (simp add: convert_loop.simps [of input i] loop_bytes.simps [of input i]
              memcpy_append Let_def)
      qed
    qed
  qed
qed

lemma transcoded_bytes: "transcoded input = loop_bytes input 0"
  by (simp add: transcoded_def convert_loop_bytes map_snd_memcpy)

lemma convert_stores_bytes: "convert_stores input = memcpy 0 (loop_bytes input 0 @ [0])"
  by (simp add: convert_stores_def convert_loop_bytes memcpy_append memcpy_Cons memcpy_Nil)

lemma map_Some_length: "map_iso6937_to_utf8 d b = Some u \<Longrightarrow> length u = 2"
  by (auto simp: map_iso6937_to_utf8_def split: if_splits)

lemma map_Some_base: "map_iso6937_to_utf8 d b = Some u \<Longrightarrow> b < 0x80"
  by (auto simp: map_iso6937_to_utf8_def split: if_splits)

lemma map_Some_nonzero: "map_iso6937_to_utf8 d b = Some u \<Longrightarrow> 0 \<notin> set u"
  by (auto simp: map_iso6937_to_utf8_def split: if_splits)


lemma map_Some_diacritic: "map_iso6937_to_utf8 d b = Some u \<Longrightarrow> 0xC1 \<le> d \<and> d \<le> 0xCF"
  by (auto simp: map_iso6937_to_utf8_def split: if_splits)

lemma loop_bytes_cases:
  "loop_bytes input i =
    (if Suc i < length input then
       (case map_iso6937_to_utf8 (input ! i) (input ! Suc i) of
          Some u \<Rightarrow> u @ loop_bytes input (i + 2)
        | None \<Rightarrow> input ! i # loop_bytes input (Suc i))
     else if i < length input then [input ! i]
     else [])"
proof (cases "Suc i < length input")
  case True
  show ?thesis
  proof (cases "map_iso6937_to_utf8 (input ! i) (input ! Suc i)")
    case None
    with True show ?thesis
      by (simp add: loop_bytes.simps [of input i] Let_def)
  next
    case (Some u)
    with True map_Some_diacritic [OF Some] show ?thesis
      by (simp add: loop_bytes.simps [of input i] Let_def)
  qed
next
  case False
  then show ?thesis
    by (simp add: loop_bytes.simps [of input i] loop_bytes.simps [of input "Suc i"] Let_def)
qed

lemma loop_bytes_shift: "loop_bytes (pre @ xs) (length pre + k) = loop_bytes xs k"
proof (induction "length xs - k" arbitrary: k rule: less_induct)
  case less
  have nth: "(pre @ xs) ! (length pre + k) = xs ! k"
    "(pre @ xs) ! Suc (length pre + k) = xs ! Suc k"
    by (simp_all add: nth_append)
  show ?case
  proof (cases "Suc k < length xs")
    case True
    have s1: "loop_bytes (pre @ xs) (length pre + Suc k) = loop_bytes xs (Suc k)"
      using True by (intro less) simp
    have s2: "loop_bytes (pre @ xs) (length pre + (k + 2)) = loop_bytes xs (k + 2)"
      using True by (intro less) simp
    from True s1 s2 show ?thesis
      by (subst loop_bytes_cases, subst (2) loop_bytes_cases)
        (simp add: nth add.assoc split: option.splits)
  next
    case False
    then show ?thesis
      by (subst loop_bytes_cases, subst (2) loop_bytes_cases) (simp add: nth)
  qed
qed

lemma transcoded_Nil: "transcoded [] = []"
  by (simp add: transcoded_bytes loop_bytes_cases [of "[]"])

lemma transcoded_single: "transcoded [d] = [d]"
  by (simp add: transcoded_bytes loop_bytes_cases [of "[d]" 0])

lemma transcoded_pair:
  assumes "map_iso6937_to_utf8 d b = Some u"
  shows "transcoded (d # b # rest) = u @ transcoded rest"
proof -
  have "loop_bytes ([d, b] @ rest) (length [d, b] + 0) = loop_bytes rest 0"
    by (rule loop_bytes_shift)
  with assms show ?thesis
    by (simp add: transcoded_bytes loop_bytes_cases [of "d # b # rest" 0])
qed

lemma transcoded_literal:
  assumes "map_iso6937_to_utf8 d b = None"
  shows "transcoded (d # b # rest) = d # transcoded (b # rest)"
proof -
  have "loop_bytes ([d] @ b # rest) (length [d] + 0) = loop_bytes (b # rest) 0"
    by (rule loop_bytes_shift)
  with assms show ?thesis
    by (simp add: transcoded_bytes loop_bytes_cases [of "d # b # rest" 0])
qed

lemma transcoded_append:
  assumes "\<And>c. map_iso6937_to_utf8 c d = None"
  shows "transcoded (pre @ d # rest) = transcoded pre @ transcoded (d # rest)"
proof (induction pre rule: induct_list012)
  case 1
  show ?case by (simp add: transcoded_Nil)
next
  case (2 x)
  show ?case by (simp add: transcoded_literal [OF assms] transcoded_single)
next
  case (3 x y zs)
  show ?case
  proof (cases "map_iso6937_to_utf8 x y")
    case None
    with 3 show ?thesis by (simp add: transcoded_literal)
  next
    case (Some u)
    with 3 show ?thesis by (simp add: transcoded_pair)
  qed
qed

lemma diacritic_not_base:
  assumes "0xC1 \<le> d"
  shows "map_iso6937_to_utf8 c d = None"
proof (cases "map_iso6937_to_utf8 c d")
  case (Some u)
  from map_Some_base [OF Some] assms show ?thesis
    by (simp add: word_less_nat_alt word_le_nat_alt)
qed simp

lemma transcoded_Cons_plain:
  assumes "x < 0xC1"
  shows "transcoded (x # xs) = x # transcoded xs"
proof -
  have none: "map_iso6937_to_utf8 x c = None" for c
  proof (cases "map_iso6937_to_utf8 x c")
    case (Some u)
    from map_Some_diacritic [OF Some] assms show ?thesis
      by (simp add: word_less_nat_alt word_le_nat_alt)
  qed simp
  show ?thesis
    by (cases xs) (simp_all add: transcoded_single transcoded_Nil transcoded_literal [OF none])
qed

lemma c_string_terminated: "0 \<notin> set xs \<Longrightarrow> c_string (xs @ 0 # ys) = xs"
  by (induction xs) (simp_all add: c_string_def)

lemma convert_result:
  "convert_iso6937_to_utf8 True input = Some (c_string (transcoded input @ [0]))"
  by (simp add: convert_iso6937_to_utf8_def convert_stores_bytes transcoded_bytes map_snd_memcpy)

lemma length_loop_bytes: "length (loop_bytes input i) \<le> length input - i"
proof (induction "length input - i" arbitrary: i rule: less_induct)
  case less
  show ?case
  proof (cases "Suc i < length input")
    case True
    have s1: "length (loop_bytes input (Suc i)) \<le> length input - Suc i"
      using True by (intro less) simp
    have s2: "length (loop_bytes input (i + 2)) \<le> length input - (i + 2)"
      using True by (intro less) simp
    from True s1 s2 show ?thesis
      by (subst loop_bytes_cases) (auto split: option.splits dest: map_Some_length)
  next
    case False
    then show ?thesis
      by (subst loop_bytes_cases) auto
  qed
qed

lemma convert_stores_indices:
  "map fst (convert_stores input) = [0 ..< Suc (length (transcoded input))]"
  by (simp add: convert_stores_bytes transcoded_bytes map_fst_memcpy del: upt_Suc)

lemma convert_stores_in_bounds:
  assumes "input \<noteq> []" and "(k, b) \<in> set (convert_stores input)"
  shows "k < out_len input"
proof -
  from assms(2) have "k \<in> set (map fst (convert_stores input))"
    by force
  then have "k \<le> length (transcoded input)"
    by (simp add: convert_stores_indices del: upt_Suc)
  also have "\<dots> \<le> length input"
    using length_loop_bytes [of input 0] by (simp add: transcoded_bytes)
  also have "\<dots> < out_len input"
    using assms(1) by (simp add: out_len_def)
  finally show ?thesis .
qed

text \<open>
  The table of the code is the table of the specification: an entry exists exactly
  for the four diacritics and the ten vowels, and it is the UTF-8 encoding of the
  precomposed character. A string without NUL is transcoded without NUL, so the C
  string returned is all that the loop has written.
\<close>

lemma table_refines:
  "map_iso6937_to_utf8 d b = map_option utf8_two_bytes (precomposed_code_point d b)"
  by (simp add: map_iso6937_to_utf8_def precomposed_code_point_def precomposed_table_def
      utf8_two_bytes_def)

lemma c_string_append: "0 \<notin> set xs \<Longrightarrow> c_string (xs @ ys) = xs @ c_string ys"
  by (induction xs) (simp_all add: c_string_def)

lemma transcoded_nonzero: "0 \<notin> set input \<Longrightarrow> 0 \<notin> set (transcoded input)"
proof (induction input rule: induct_list012)
  case 1
  show ?case by (simp add: transcoded_Nil)
next
  case (2 x)
  then show ?case by (simp add: transcoded_single)
next
  case (3 x y zs)
  show ?case
  proof (cases "map_iso6937_to_utf8 x y")
    case None
    with 3 show ?thesis by (simp add: transcoded_literal)
  next
    case (Some u)
    with 3 map_Some_nonzero [OF Some] show ?thesis by (simp add: transcoded_pair)
  qed
qed

lemma convert_nonzero:
  "0 \<notin> set input \<Longrightarrow> convert_iso6937_to_utf8 True input = Some (transcoded input)"
  by (simp add: convert_result c_string_terminated transcoded_nonzero)

text \<open>
  C7. In every input, a byte \<open>d\<close> in \<open>0xC1 .. 0xCF\<close> followed by a byte with a table
  entry is replaced, together with that byte, by the entry, which for every pair is
  the UTF-8 encoding of the single precomposed character (\<open>0xC2 0x65\<close> gives
  \<open>0xC3 0xA9\<close>, e acute); followed by a byte without an entry, or as the last byte,
  it is written as it is, and the byte behind it is transcoded like the head of an
  input of its own. This is stated of the string \<open>convert_iso6937_to_utf8\<close> returns,
  which is read up to its first NUL, for a prefix \<open>pre\<close> without NUL, in terms of the
  strings returned for the prefix and for the rest; and of the bytes the loop
  writes, for every input.
\<close>

theorem diacritic_pairs:
  assumes "0xC1 \<le> d" and "d \<le> 0xCF" and "0 \<notin> set pre"
    and "convert_iso6937_to_utf8 True pre = Some p"
    and "convert_iso6937_to_utf8 True rest = Some r"
    and "convert_iso6937_to_utf8 True (b # rest) = Some r'"
  shows "(map_iso6937_to_utf8 d b = Some u \<longrightarrow>
            convert_iso6937_to_utf8 True (pre @ d # b # rest) = Some (p @ u @ r)
          \<and> transcoded (pre @ d # b # rest) = transcoded pre @ u @ transcoded rest)
       \<and> (map_iso6937_to_utf8 d b = None \<longrightarrow>
            convert_iso6937_to_utf8 True (pre @ d # b # rest) = Some (p @ d # r')
          \<and> transcoded (pre @ d # b # rest) = transcoded pre @ d # transcoded (b # rest))
       \<and> convert_iso6937_to_utf8 True (pre @ [d]) = Some (p @ [d])
       \<and> transcoded (pre @ [d]) = transcoded pre @ [d]
       \<and> map_iso6937_to_utf8 d' b' = map_option utf8_two_bytes (precomposed_code_point d' b')
       \<and> convert_iso6937_to_utf8 True [0xC2, 0x65] = Some [0xC3, 0xA9]
       \<and> convert_iso6937_to_utf8 True [0xC2] = Some [0xC2]"
proof -
  have split: "transcoded (pre @ d # xs) = transcoded pre @ transcoded (d # xs)" for xs
    by (rule transcoded_append) (rule diacritic_not_base [OF assms(1)])
  have d0: "d \<noteq> 0"
    using assms(1) by auto
  have p0: "0 \<notin> set (transcoded pre)"
    using assms(3) by (rule transcoded_nonzero)
  have p: "p = transcoded pre"
    using assms(4) convert_nonzero [OF assms(3)] by simp
  have r: "r = c_string (transcoded rest @ [0])"
    and r': "r' = c_string (transcoded (b # rest) @ [0])"
    using assms(5,6) by (simp_all add: convert_result)
  have pair: "convert_iso6937_to_utf8 True (pre @ d # b # rest) = Some (p @ u @ r)"
    "transcoded (pre @ d # b # rest) = transcoded pre @ u @ transcoded rest"
    if "map_iso6937_to_utf8 d b = Some u"
    using split [of "b # rest"] map_Some_nonzero [OF that] p0
    by (simp_all add: convert_result transcoded_pair [OF that] c_string_append p r)
  have lit: "convert_iso6937_to_utf8 True (pre @ d # b # rest) = Some (p @ d # r')"
    "transcoded (pre @ d # b # rest) = transcoded pre @ d # transcoded (b # rest)"
    if "map_iso6937_to_utf8 d b = None"
    using split [of "b # rest"] p0 d0
      c_string_append [of "transcoded pre @ [d]" "transcoded (b # rest) @ [0]"]
    by (simp_all add: convert_result transcoded_literal [OF that] p r')
  have last: "convert_iso6937_to_utf8 True (pre @ [d]) = Some (p @ [d])"
    "transcoded (pre @ [d]) = transcoded pre @ [d]"
    using split [of "[]"] p0 d0 c_string_terminated [of "transcoded pre @ [d]" "[]"]
    by (simp_all add: convert_result transcoded_single p)
  have e: "map_iso6937_to_utf8 0xC2 0x65 = Some [0xC3, 0xA9]"
    by (simp add: map_iso6937_to_utf8_def)
  have ex: "convert_iso6937_to_utf8 True [0xC2, 0x65] = Some [0xC3, 0xA9]"
    "convert_iso6937_to_utf8 True [0xC2] = Some [0xC2]"
    using transcoded_pair [OF e, of "[]"]
    by (simp_all add: convert_nonzero transcoded_single transcoded_Nil)
  show ?thesis
    using pair lit last ex table_refines by blast
qed

theorem diacritic_pairs_witness:
  "convert_iso6937_to_utf8 True ([0x41] @ 0xC2 # 0x65 # [0x42]) = Some ([0x41] @ [0xC3, 0xA9] @ [0x42])
   \<and> convert_iso6937_to_utf8 True ([0x41] @ 0xC3 # 0x78 # [0x42]) = Some ([0x41] @ 0xC3 # [0x78, 0x42])
   \<and> convert_iso6937_to_utf8 True ([0x41] @ [0xC2]) = Some ([0x41] @ [0xC2])"
proof -
  have d: "(0xC1 :: uint8_t) \<le> 0xC2" "(0xC2 :: uint8_t) \<le> 0xCF"
    "(0xC1 :: uint8_t) \<le> 0xC3" "(0xC3 :: uint8_t) \<le> 0xCF"
    by simp_all
  have z: "(0 :: uint8_t) \<notin> set [0x41]"
    by simp
  have c: "convert_iso6937_to_utf8 True [0x41] = Some [0x41]"
    "convert_iso6937_to_utf8 True [0x42] = Some [0x42]"
    "convert_iso6937_to_utf8 True (0x65 # [0x42]) = Some [0x65, 0x42]"
    "convert_iso6937_to_utf8 True (0x78 # [0x42]) = Some [0x78, 0x42]"
    by code_simp+
  have m: "map_iso6937_to_utf8 0xC2 0x65 = Some [0xC3, 0xA9]" "map_iso6937_to_utf8 0xC3 0x78 = None"
    by (simp_all add: map_iso6937_to_utf8_def)
  show ?thesis
    using diacritic_pairs [OF d(1,2) z c(1,2,3), of "[0xC3, 0xA9]"]
      diacritic_pairs [OF d(3,4) z c(1,2,4), of "[]"] m
    by simp
qed

text \<open>
  C8. An input of printable bytes below \<open>0xC1\<close> (printable ASCII is \<open>0x20 .. 0x7E\<close>) is
  transcoded to itself: the loop writes the input, and the C string returned is the
  input.
\<close>

theorem printable_ascii_unchanged:
  assumes "\<forall>b \<in> set input. 0x20 \<le> b \<and> b < 0xC1"
  shows "transcoded input = input \<and> convert_iso6937_to_utf8 True input = Some input"
proof -
  from assms have t: "transcoded input = input"
    by (induction input) (simp_all add: transcoded_Nil transcoded_Cons_plain)
  from assms have "0 \<notin> set input"
    by auto
  then show ?thesis
    by (simp add: t convert_result c_string_terminated)
qed

theorem printable_ascii_unchanged_witness:
  "transcoded [0x48, 0x49] = [0x48, 0x49]
   \<and> convert_iso6937_to_utf8 True [0x48, 0x49] = Some [0x48, 0x49]"
proof -
  have h: "\<forall>b \<in> set [0x48, 0x49 :: uint8_t]. 0x20 \<le> b \<and> b < 0xC1"
    by simp
  show ?thesis
    using printable_ascii_unchanged [OF h] by simp
qed

text \<open>
  C9. For the empty input the buffer has \<open>out_len = 0\<close> bytes, and the one store of the
  call, the terminator, goes to index 0: it is not within the first \<open>4 * 0\<close> bytes.
  (For a non-empty input every store is inside the buffer, see
  \<open>convert_stores_in_bounds\<close>.)
\<close>

theorem terminator_outside_empty_buffer:
  "convert_stores [] = [(0, 0)] \<and> out_len [] = 0"
  by (simp add: convert_stores_def convert_loop.simps out_len_def)

section \<open>The assembled markup\<close>

text \<open>
  The assembled string starts with the two colour tags of the first line and is only
  ever extended, so it is never empty, for any block: the test for an empty subtitle
  in \<open>ebustl_decode_frame\<close> never succeeds, and a packet of one block always adds one
  cue and advances the read order.
\<close>

lemma c_string_text_tag: "c_string (text_tag hex) \<noteq> []"
  by (simp add: c_string_def text_tag_def cstr_def)

lemma c_string_border_tag: "c_string (border_tag hex) \<noteq> []"
  by (simp add: c_string_def border_tag_def cstr_def)

lemma fmt_s_first_text_color_str: "fmt_s (first_text_color_str text_color None) \<noteq> []"
  by (simp add: first_text_color_str_def fmt_s_def c_string_text_tag cstr_def)

lemma append_line_not_empty: "ass_string v \<noteq> [] \<Longrightarrow> append_line output_ok v \<noteq> []"
  by (simp add: append_line_def split: option.splits)

lemma text_loop_not_empty:
  "ass_string v \<noteq> [] \<Longrightarrow> ass_string (text_loop alloc tti_block tti_block_size i v) \<noteq> []"
proof (induction alloc tti_block tti_block_size i v rule: text_loop.induct)
  case (1 alloc tti_block tti_block_size i v)
  show ?case
  proof (cases "i < tti_block_size")
    case False
    with "1.prems" show ?thesis
      by (simp add: text_loop.simps [of alloc tti_block tti_block_size i v])
  next
    case True
    note lt = this
    show ?thesis
    proof (cases "tti_block ! i = 0x8A")
      case True
      obtain tc bc where c: "extract_colors_from_tti tti_block (line_count v + 1) = (tc, bc)"
        by (cases "extract_colors_from_tti tti_block (line_count v + 1)")
      have c': "(tc, bc) = extract_colors_from_tti tti_block (line_count v + 1)"
        using c by simp
      have "ass_string (text_loop alloc tti_block tti_block_size (i + 1)
          \<lparr>ass_string = append_line (alloc (line_count v)) v
               @ fmt_s (next_text_color_str tc (text_color_str v))
               @ fmt_s (border_color_str bc (border_color v)),
           line = [], line_count = line_count v + 1,
           text_color_str = next_text_color_str tc (text_color_str v),
           border_color = border_color_str bc (border_color v)\<rparr>) \<noteq> []"
        by (rule "1.IH"(1) [OF lt refl True refl refl c' refl refl refl])
          (simp add: append_line_not_empty [OF "1.prems"])
      with lt True c show ?thesis
        by (simp add: text_loop.simps [of alloc tti_block tti_block_size i v] Let_def)
    next
      case nl: False
      show ?thesis
      proof (cases "tti_block ! i = 0x8F")
        case True
        with lt nl "1.prems" show ?thesis
          by (simp add: text_loop.simps [of alloc tti_block tti_block_size i v] Let_def)
      next
        case eot: False
        show ?thesis
        proof (cases "tti_block ! i \<ge> 32")
          case True
          have "ass_string (text_loop alloc tti_block tti_block_size (i + 1)
              (v\<lparr>line := line v @ [tti_block ! i]\<rparr>)) \<noteq> []"
            by (rule "1.IH"(2) [OF lt refl nl eot True]) (simp add: "1.prems")
          with lt nl eot True show ?thesis
            by (simp add: text_loop.simps [of alloc tti_block tti_block_size i v] Let_def)
        next
          case False
          have "ass_string (text_loop alloc tti_block tti_block_size (i + 1) v) \<noteq> []"
            by (rule "1.IH"(3) [OF lt refl nl eot False "1.prems"])
          with lt nl eot False show ?thesis
            by (simp add: text_loop.simps [of alloc tti_block tti_block_size i v] Let_def)
        qed
      qed
    qed
  qed
qed

lemma assembled_text_not_empty:
  "extract_text_and_colors_from_tti_block alloc tti_block tti_block_size \<noteq> []"
proof -
  obtain tc bc where c: "extract_colors_from_tti tti_block 0 = (tc, bc)"
    by (cases "extract_colors_from_tti tti_block 0")
  show ?thesis
    unfolding extract_text_and_colors_from_tti_block_def Let_def c prod.case
    by (intro append_line_not_empty text_loop_not_empty)
      (simp add: fmt_s_first_text_color_str)
qed

lemma one_block_one_cue:
  assumes "length data = TTI_BLOCK_SIZE"
  shows "length (rects (ebustl_decode_frame alloc sub ro data)) = length sub + 1
       \<and> readorder (ebustl_decode_frame alloc sub ro data) = ro + 1"
proof -
  have rest: "decode_loop alloc n [] d = d" for n d
    by (simp add: decode_loop.simps [of alloc n "[]"] TTI_BLOCK_SIZE_def)
  show ?thesis
    using assms
    by (simp add: ebustl_decode_frame_def decode_loop.simps [of alloc 0 data] Let_def rest
        assembled_text_not_empty ff_ass_add_rect_def)
qed

text \<open>
  The alignment: the code of the decoder is the code of the specification, a number
  from 1 to 9, and \<open>%d\<close> prints it as one digit.
\<close>

lemma fmt_d_digit:
  assumes "0 \<le> n" and "n < 10"
  shows "fmt_d n = [of_char CHR ''0'' + of_int n]"
proof -
  have "nat n < 10"
    using assms by linarith
  moreover have "(of_nat (nat n) :: uint8_t) = of_int n"
    using assms(1) by simp
  ultimately show ?thesis
    using assms(1) by (simp add: fmt_d_def digits.simps [of "nat n"])
qed

lemma spec_rank_range:
  "1 \<le> (spec_vertical_rank a - 1) * 3 + spec_horizontal_rank b"
  "(spec_vertical_rank a - 1) * 3 + spec_horizontal_rank b \<le> 9"
  by (simp_all add: spec_vertical_rank_def spec_horizontal_rank_def)

lemma alignment_code_spec:
  "alignment_code v j = (spec_vertical_rank (unat v) - 1) * 3 + spec_horizontal_rank (unat j)"
proof -
  have v: "vertical_alignment v = spec_vertical_rank (unat v)"
    by (simp add: vertical_alignment_def spec_vertical_rank_def word_less_nat_alt
        word_le_nat_alt)
  have j1: "j = 1 \<longleftrightarrow> unat j = 1" and j3: "j = 3 \<longleftrightarrow> unat j = 3"
    using word_unat_eq_iff [of j 1] word_unat_eq_iff [of j 3] by simp_all
  have j: "horizontal_alignment j = spec_horizontal_rank (unat j)"
    unfolding horizontal_alignment_def spec_horizontal_rank_def j1 j3 by simp
  show ?thesis
    by (simp add: alignment_code_def v j)
qed

lemma alignment_str_spec:
  "alignment_str v j =
     cstr ''{'' @ backslash # cstr ''an''
       @ [of_char CHR ''0''
            + of_int ((spec_vertical_rank (unat v) - 1) * 3 + spec_horizontal_rank (unat j))]
       @ cstr ''}''"
proof -
  have "fmt_d (alignment_code v j) =
      [of_char CHR ''0''
         + of_int ((spec_vertical_rank (unat v) - 1) * 3 + spec_horizontal_rank (unat j))]"
    unfolding alignment_code_spec
    using spec_rank_range [of "unat v" "unat j"] by (intro fmt_d_digit) simp_all
  then show ?thesis
    by (simp add: alignment_str_def)
qed

text \<open>
  C6. For every vertical-position byte \<open>v\<close> and justification byte \<open>j\<close> the alignment
  code is \<open>(vertical_rank - 1) * 3 + horizontal_rank\<close> with the ranks of the
  specification, and the tag \<open>{\an..}\<close> the decoder builds holds that code as its one
  digit; positions 5, 12 and 20 with justifications 1, 2 and 3 give the codes 7, 5
  and 3 and the tags \<open>{\an7}\<close>, \<open>{\an5}\<close> and \<open>{\an3}\<close>. Every block of a packet adds one
  cue, whose markup is this tag for the bytes 13 and 14 of the block, then the
  assembled text, then the border tag.
\<close>

theorem alignment_code_ranks:
  "alignment_code v j = (spec_vertical_rank (unat v) - 1) * 3 + spec_horizontal_rank (unat j)
   \<and> alignment_code 5 0x01 = 7 \<and> alignment_code 12 0x02 = 5 \<and> alignment_code 20 0x03 = 3
   \<and> alignment_str v j =
       cstr ''{'' @ backslash # cstr ''an''
         @ [of_char CHR ''0''
              + of_int ((spec_vertical_rank (unat v) - 1) * 3 + spec_horizontal_rank (unat j))]
         @ cstr ''}''
   \<and> alignment_str 5 0x01 = cstr ''{'' @ backslash # cstr ''an7}''
   \<and> alignment_str 12 0x02 = cstr ''{'' @ backslash # cstr ''an5}''
   \<and> alignment_str 20 0x03 = cstr ''{'' @ backslash # cstr ''an3}''
   \<and> (TTI_BLOCK_SIZE \<le> length data \<longrightarrow>
        decode_loop alloc n data dv =
          decode_loop alloc (n + 1) (drop TTI_BLOCK_SIZE data)
            \<lparr>rects = rects dv @
               [\<lparr>markup_text =
                   cstr ''{'' @ backslash # cstr ''an''
                     @ [of_char CHR ''0''
                          + of_int ((spec_vertical_rank (unat (data ! 13)) - 1) * 3
                                    + spec_horizontal_rank (unat (data ! 14)))]
                     @ cstr ''}''
                     @ extract_text_and_colors_from_tti_block (alloc n) data TTI_BLOCK_SIZE
                     @ cstr ''{'' @ backslash # cstr ''bord3}'',
                 sequence_index = readorder dv\<rparr>],
             readorder = readorder dv + 1, got_sub = 1\<rparr>)"
proof -
  have e: "alignment_code 5 0x01 = 7" "alignment_code 12 0x02 = 5" "alignment_code 20 0x03 = 3"
    by (simp_all add: alignment_code_def vertical_alignment_def horizontal_alignment_def)
  have s: "alignment_str 5 0x01 = cstr ''{'' @ backslash # cstr ''an7}''"
    "alignment_str 12 0x02 = cstr ''{'' @ backslash # cstr ''an5}''"
    "alignment_str 20 0x03 = cstr ''{'' @ backslash # cstr ''an3}''"
    by (simp_all add: alignment_str_spec spec_vertical_rank_def spec_horizontal_rank_def
        cstr_def)
  have step: "decode_loop alloc n data dv =
      decode_loop alloc (n + 1) (drop TTI_BLOCK_SIZE data)
        \<lparr>rects = rects dv @
           [\<lparr>markup_text =
               alignment_str (data ! 13) (data ! 14)
                 @ extract_text_and_colors_from_tti_block (alloc n) data TTI_BLOCK_SIZE
                 @ cstr ''{'' @ backslash # cstr ''bord3}'',
             sequence_index = readorder dv\<rparr>],
         readorder = readorder dv + 1, got_sub = 1\<rparr>"
    if "TTI_BLOCK_SIZE \<le> length data"
    using that
    by (simp add: decode_loop.simps [of alloc n data] Let_def assembled_text_not_empty
        ff_ass_add_rect_def)
  show ?thesis
    using e s step alignment_code_spec [of v j] alignment_str_spec [of v j]
    by (simp add: alignment_str_spec)
qed

theorem alignment_code_ranks_witness:
  "rects (ebustl_decode_frame (\<lambda>_ _. True) [] 0 (example_block 5 0x01 0 [0x48, 0x49, 0x8F]))
   = [\<lparr>markup_text = cstr ''{'' @ backslash # cstr ''an7}''
         @ text_tag ''FFFFFF'' @ border_tag ''000000'' @ cstr ''HI''
         @ cstr ''{'' @ backslash # cstr ''bord3}'',
       sequence_index = 0\<rparr>]"
proof -
  let ?data = "example_block 5 0x01 0 [0x48, 0x49, 0x8F]"
  have len: "TTI_BLOCK_SIZE \<le> length ?data"
    by (simp add: example_block_def TTI_BLOCK_SIZE_def TTI_TEXT_FIELD_LENGTH_def)
  have rest: "drop TTI_BLOCK_SIZE ?data = []"
    by (simp add: example_block_def TTI_BLOCK_SIZE_def TTI_TEXT_FIELD_LENGTH_def)
  have b: "?data ! 13 = 5" "?data ! 14 = 1"
    by (simp_all add: example_block_def nth_append)
  have t: "extract_text_and_colors_from_tti_block (\<lambda>_. True) ?data TTI_BLOCK_SIZE
      = text_tag ''FFFFFF'' @ border_tag ''000000'' @ cstr ''HI''"
    by code_simp
  have stop: "decode_loop alloc n [] dv = dv" for alloc n dv
    by (simp add: decode_loop.simps [of alloc n "[]"] TTI_BLOCK_SIZE_def)
  show ?thesis
    using alignment_code_ranks [of 5 1 ?data "\<lambda>_ _. True" 0
        "\<lparr>rects = [], readorder = 0, got_sub = 0\<rparr>"] len
    by (simp add: ebustl_decode_frame_def rest b t stop spec_vertical_rank_def
        spec_horizontal_rank_def cstr_def)
qed

text \<open>
  C1. The two scans of the text field do not start at one offset: the colour scan
  starts at \<open>TTI_TEXT_FIELD_OFFSET = 16\<close>, the text scan at \<open>text_field_offset = 13\<close>.
  In a block with vertical position \<open>0x41\<close>, justification code \<open>0x01\<close> and the text
  field \<open>HI\<close>, the text scan emits the vertical-position byte as the letter \<open>A\<close>
  before \<open>HI\<close>, while the colour scan does not see the byte \<open>0x01\<close> at offset 14 (the
  text colour stays white).
\<close>

theorem scan_offsets_differ:
  "text_field_offset = 13 \<and> TTI_TEXT_FIELD_OFFSET = 16
   \<and> extract_text_and_colors_from_tti_block (\<lambda>_. True)
        (example_block 0x41 0x01 0 (cstr ''HI'' @ [0x8F])) TTI_BLOCK_SIZE
      = text_tag ''FFFFFF'' @ border_tag ''000000'' @ cstr ''AHI''"
  by code_simp

text \<open>
  C2. A block whose text field holds no printable byte before the end-of-text marker
  still emits a cue: for the text field that is only \<open>0x8F\<close>, the assembled string is
  the two colour tags of the first line, the cue with the alignment tag, these tags
  and the border tag is added, and the read order goes from 0 to 1.
\<close>

theorem block_without_text_emits_cue:
  "ebustl_decode_frame (\<lambda>_ _. True) [] 0 (example_block 0 0 0 [0x8F])
   = \<lparr>rects = [\<lparr>markup_text = cstr ''{'' @ backslash # cstr ''an8}'' @ text_tag ''FFFFFF''
                   @ border_tag ''000000'' @ cstr ''{'' @ backslash # cstr ''bord3}'',
                 sequence_index = 0\<rparr>],
      readorder = 1, got_sub = 1\<rparr>"
  by code_simp

text \<open>
  C3. The text-colour tag of a colour value depends on the line: in the text field
  \<open>0x01 A 0x8A 0x01 B 0x8F\<close> both lines have text colour 1, and the first line gets
  the tag \<open>0000FF\<close>, the second the tag \<open>FF0000\<close>; colour 4 gets \<open>FF0000\<close> on the
  first line and \<open>0000FF\<close> on a later one.
\<close>

theorem text_color_table_differs_by_line:
  "extract_text_and_colors_from_tti_block (\<lambda>_. True)
     (example_block 0 0 0 [0x01, 0x41, 0x8A, 0x01, 0x42, 0x8F]) TTI_BLOCK_SIZE
   = text_tag ''0000FF'' @ border_tag ''000000'' @ cstr ''A''
     @ text_tag ''FF0000'' @ border_tag ''000000'' @ backslash # cstr ''NB''
   \<and> extract_colors_from_tti (example_block 0 0 0 [0x01, 0x41, 0x8A, 0x01, 0x42, 0x8F]) 0 = (1, 7)
   \<and> extract_colors_from_tti (example_block 0 0 0 [0x01, 0x41, 0x8A, 0x01, 0x42, 0x8F]) 1 = (1, 7)
   \<and> first_text_color_str 4 None = Some (text_tag ''FF0000'')
   \<and> next_text_color_str 4 None = Some (text_tag ''0000FF'')"
  by code_simp

text \<open>
  C4. The colour scan does not stop at the end-of-text marker: the text fields
  \<open>A 0x8F\<close> and \<open>A 0x8F 0x01\<close>, both filled up with \<open>0x8F\<close>, differ only behind the
  first \<open>0x8F\<close>, and the text colour of line 0 is 0 for the first and 1 for the
  second, so the emitted markup differs in its text-colour tag.
\<close>

theorem color_scan_reads_past_end_of_text:
  "extract_colors_from_tti (example_block 0 0 0 [0x41, 0x8F]) 0 = (0, 7)
   \<and> extract_colors_from_tti (example_block 0 0 0 [0x41, 0x8F, 0x01]) 0 = (1, 7)
   \<and> extract_text_and_colors_from_tti_block (\<lambda>_. True)
        (example_block 0 0 0 [0x41, 0x8F]) TTI_BLOCK_SIZE
      = text_tag ''FFFFFF'' @ border_tag ''000000'' @ cstr ''A''
   \<and> extract_text_and_colors_from_tti_block (\<lambda>_. True)
        (example_block 0 0 0 [0x41, 0x8F, 0x01]) TTI_BLOCK_SIZE
      = text_tag ''0000FF'' @ border_tag ''000000'' @ cstr ''A''"
  by code_simp

section \<open>Probing\<close>

text \<open>
  From a buffer size of 6 on, the probe reads inside the buffer and matches exactly
  the signature.
\<close>

lemma probe_from_six:
  assumes "6 \<le> buf_size p"
  shows "(\<forall>k \<in> set (fst (ebustl_probe score_max p)). int k < buf_size p)
       \<and> snd (ebustl_probe score_max p) =
           (if buf p 3 = of_char CHR ''S'' \<and> buf p 4 = of_char CHR ''T'' \<and> buf p 5 = of_char CHR ''L''
            then score_max else 0)"
  using assms by (simp add: ebustl_probe_def)

text \<open>
  C10. With a buffer size of 5 and \<open>S\<close>, \<open>T\<close> at the indices 3 and 4, the probe reads
  the indices 3, 4 and 5: index 5 is not below the buffer size, and the result
  depends on the byte that lies behind the buffer.
\<close>

theorem probe_reads_index_five:
  "ebustl_probe score_max
     \<lparr>buf_size = 5, buf = (\<lambda>k. if k < 5 then cstr ''...ST'' ! k else beyond k)\<rparr>
   = ([3, 4, 5], if beyond 5 = of_char CHR ''L'' then score_max else 0)"
  by (simp add: ebustl_probe_def cstr_def)

end
